theory Spec2Isabelle
  imports Main "HOL-Library.Word" "HOL-Library.AList"
begin

section \<open>The mock virtual-machine manager of \<^verbatim>\<open>vm/vm_manager.go\<close>\<close>

text \<open>
  The Go package keeps a registry \<^verbatim>\<open>map[string]*MockVM\<close> behind a reader/writer
  mutex. Every method takes the mutex for its whole body, so a method is one atomic
  step on the program state; that step is what is modelled here. The log lines the
  methods print are not part of the model.
\<close>

subsection \<open>Data\<close>

text \<open>
  \<^verbatim>\<open>VMConfig\<close>: \<^verbatim>\<open>Memory\<close> and \<^verbatim>\<open>DiskSize\<close> are \<^verbatim>\<open>uint64\<close>; \<^verbatim>\<open>VCPUs\<close> is
  \<^verbatim>\<open>uint\<close>, 64 bits wide on a 64-bit target. The manager only compares them with zero.
\<close>

record VMConfig =
  Name :: string
  Memory :: "64 word"
  VCPUs :: "64 word"
  DiskPath :: string
  DiskSize :: "64 word"
  ISOImage :: string
  Network :: string

text \<open>\<^verbatim>\<open>type VMState string\<close> with its three constants.\<close>

type_synonym VMState = string

definition VMStateStopped :: VMState where
  "VMStateStopped = ''stopped''"

definition VMStateRunning :: VMState where
  "VMStateRunning = ''running''"

definition VMStatePaused :: VMState where
  "VMStatePaused = ''paused''"

record MockVM =
  Config :: VMConfig
  State :: VMState

text \<open>
  The registry holds pointers. A pointer is an index into the list of all \<^verbatim>\<open>MockVM\<close>
  objects allocated so far; objects are never freed (garbage collection cannot be
  observed). The state is that list together with the fields of the receiver:
  \<^verbatim>\<open>vms\<close>, where \<open>None\<close> is Go's nil map (the zero value of the field) and an
  association list gives the entries of an allocated map, and \<^verbatim>\<open>next\<close> (here
  \<open>next_id\<close>, which no method reads or writes). The order of the association list
  stands for the unspecified iteration order of a Go map; nothing below depends on it.
\<close>

type_synonym addr = nat

record mstate =
  heap :: "MockVM list"
  vms :: "(string \<times> addr) list option"
  next_id :: int

text \<open>
  One constructor for each \<^verbatim>\<open>fmt.Errorf\<close> of the manager; \<open>error_message\<close> is the
  text the Go error carries.
\<close>

datatype error =
    ErrAlreadyExists string
  | ErrNameEmpty
  | ErrMemoryZero
  | ErrVCPUsZero
  | ErrNotFound string

definition quoted :: "string \<Rightarrow> string" where
  "quoted s = [CHR 0x27] @ s @ [CHR 0x27]"

fun error_message :: "error \<Rightarrow> string" where
  "error_message (ErrAlreadyExists n) =
     ''virtual machine with name '' @ quoted n @ '' already exists''"
| "error_message ErrNameEmpty = ''VM name cannot be empty''"
| "error_message ErrMemoryZero = ''VM memory cannot be zero''"
| "error_message ErrVCPUsZero = ''VM VCPUs cannot be zero''"
| "error_message (ErrNotFound n) = ''virtual machine '' @ quoted n @ '' not found''"

text \<open>
  The code tells its errors apart by message only. The specification sorts them into
  three kinds: already-exists for the name collision, invalid-argument for the three
  validation failures, not-found for an unknown name.
\<close>

datatype error_kind = InvalidArgument | AlreadyExists | NotFound

fun kind_of :: "error \<Rightarrow> error_kind" where
  "kind_of (ErrAlreadyExists n) = AlreadyExists"
| "kind_of ErrNameEmpty = InvalidArgument"
| "kind_of ErrMemoryZero = InvalidArgument"
| "kind_of ErrVCPUsZero = InvalidArgument"
| "kind_of (ErrNotFound n) = NotFound"

text \<open>
  A call either panics, which ends the process (nothing in the package recovers), or
  returns its results together with the state it leaves behind.
\<close>

datatype 'a outcome = Panic | Return 'a mstate

subsection \<open>Primitive steps\<close>

text \<open>\<^verbatim>\<open>vm, exists := m.vms[name]\<close>; reading a nil map finds nothing.\<close>

definition lookup :: "mstate \<Rightarrow> string \<Rightarrow> addr option" where
  "lookup m name = (case vms m of None \<Rightarrow> None | Some al \<Rightarrow> map_of al name)"

text \<open>Reading through a pointer; \<open>None\<close> is the nil-pointer dereference.\<close>

definition deref :: "mstate \<Rightarrow> addr \<Rightarrow> MockVM option" where
  "deref m a = (if a < length (heap m) then Some (heap m ! a) else None)"

text \<open>\<^verbatim>\<open>vm.State = s\<close> for a pointer that has been read through already.\<close>

definition set_State :: "mstate \<Rightarrow> addr \<Rightarrow> VMState \<Rightarrow> mstate" where
  "set_State m a s = m\<lparr>heap := (heap m)[a := (heap m ! a)\<lparr>State := s\<rparr>]\<rparr>"

subsection \<open>The methods\<close>

definition NewMockVMManager :: "MockVM list \<Rightarrow> mstate" where
  "NewMockVMManager h = \<lparr>heap = h, vms = Some [], next_id = 1\<rparr>"

definition Close :: "mstate \<Rightarrow> error option outcome" where
  "Close m = Return None m"

definition CreateVM :: "mstate \<Rightarrow> VMConfig \<Rightarrow> error option outcome" where
  "CreateVM m config =
     (if lookup m (Name config) \<noteq> None then
        Return (Some (ErrAlreadyExists (Name config))) m
      else if Name config = [] then Return (Some ErrNameEmpty) m
      else if Memory config = 0 then Return (Some ErrMemoryZero) m
      else if VCPUs config = 0 then Return (Some ErrVCPUsZero) m
      else
        let mockVM = length (heap m);
            m1 = m\<lparr>heap := heap m @ [\<lparr>Config = config, State = VMStateStopped\<rparr>]\<rparr>
        in (case vms m1 of
              None \<Rightarrow> Panic
            | Some al \<Rightarrow>
                let m2 = m1\<lparr>vms := Some (AList.update (Name config) mockVM al)\<rparr>
                in Return None (set_State m2 mockVM VMStateRunning)))"

definition ListVMs :: "mstate \<Rightarrow> (string list \<times> error option) outcome" where
  "ListVMs m =
     Return ((case vms m of None \<Rightarrow> [] | Some al \<Rightarrow> map fst al), None) m"

definition StartVM :: "mstate \<Rightarrow> string \<Rightarrow> error option outcome" where
  "StartVM m name =
     (case lookup m name of
        None \<Rightarrow> Return (Some (ErrNotFound name)) m
      | Some vm \<Rightarrow>
          (case deref m vm of
             None \<Rightarrow> Panic
           | Some r \<Rightarrow>
               if State r = VMStateRunning then Return None m
               else Return None (set_State m vm VMStateRunning)))"

definition StopVM :: "mstate \<Rightarrow> string \<Rightarrow> error option outcome" where
  "StopVM m name =
     (case lookup m name of
        None \<Rightarrow> Return (Some (ErrNotFound name)) m
      | Some vm \<Rightarrow>
          (case deref m vm of
             None \<Rightarrow> Panic
           | Some r \<Rightarrow>
               if State r = VMStateStopped then Return None m
               else Return None (set_State m vm VMStateStopped)))"

definition DeleteVM :: "mstate \<Rightarrow> string \<Rightarrow> error option outcome" where
  "DeleteVM m name =
     (case lookup m name of
        None \<Rightarrow> Return (Some (ErrNotFound name)) m
      | Some vm \<Rightarrow>
          (case deref m vm of
             None \<Rightarrow> Panic
           | Some r \<Rightarrow>
               let m1 = (if State r = VMStateRunning
                         then set_State m vm VMStateStopped else m)
               in Return None (m1\<lparr>vms := map_option (AList.delete name) (vms m1)\<rparr>)))"

text \<open>\<^verbatim>\<open>GetVMInfo\<close> hands out the pointer itself and does not read through it.\<close>

definition GetVMInfo :: "mstate \<Rightarrow> string \<Rightarrow> (addr option \<times> error option) outcome" where
  "GetVMInfo m name =
     (case lookup m name of
        None \<Rightarrow> Return (None, Some (ErrNotFound name)) m
      | Some vm \<Rightarrow> Return (Some vm, None) m)"

definition GetVMState :: "mstate \<Rightarrow> string \<Rightarrow> (VMState \<times> error option) outcome" where
  "GetVMState m name =
     (case lookup m name of
        None \<Rightarrow> Return ([], Some (ErrNotFound name)) m
      | Some vm \<Rightarrow>
          (case deref m vm of
             None \<Rightarrow> Panic
           | Some r \<Rightarrow> Return (State r, None) m))"

subsection \<open>Observing a record; sequences of calls\<close>

text \<open>
  The record a name stands for: what a caller reads through the pointer that
  \<^verbatim>\<open>GetVMInfo\<close> returns for the name.
\<close>

definition record_of :: "mstate \<Rightarrow> string \<Rightarrow> MockVM option" where
  "record_of m name = (case lookup m name of None \<Rightarrow> None | Some vm \<Rightarrow> deref m vm)"

text \<open>The calls a client can make, and the state each leaves when it returns.\<close>

datatype call =
    CallCreateVM VMConfig
  | CallListVMs
  | CallStartVM string
  | CallStopVM string
  | CallDeleteVM string
  | CallGetVMInfo string
  | CallGetVMState string
  | CallClose

fun state_after :: "'a outcome \<Rightarrow> mstate option" where
  "state_after Panic = None"
| "state_after (Return r m) = Some m"

fun perform :: "mstate \<Rightarrow> call \<Rightarrow> mstate option" where
  "perform m (CallCreateVM config) = state_after (CreateVM m config)"
| "perform m CallListVMs = state_after (ListVMs m)"
| "perform m (CallStartVM name) = state_after (StartVM m name)"
| "perform m (CallStopVM name) = state_after (StopVM m name)"
| "perform m (CallDeleteVM name) = state_after (DeleteVM m name)"
| "perform m (CallGetVMInfo name) = state_after (GetVMInfo m name)"
| "perform m (CallGetVMState name) = state_after (GetVMState m name)"
| "perform m CallClose = state_after (Close m)"

text \<open>
  The states of a manager made by \<^verbatim>\<open>NewMockVMManager\<close> (in a program that may have
  allocated other objects before) and then used through its methods only.
\<close>

inductive reachable :: "mstate \<Rightarrow> bool" where
  init: "reachable (NewMockVMManager h)"
| step: "reachable m \<Longrightarrow> perform m c = Some m' \<Longrightarrow> reachable m'"

text \<open>
  The shape of such a state: the map is allocated, no key occurs twice, no two keys
  share a pointer, and every pointer refers to an allocated object.
\<close>

definition wellformed :: "mstate \<Rightarrow> bool" where
  "wellformed m =
     (case vms m of
        None \<Rightarrow> False
      | Some al \<Rightarrow>
          distinct (map fst al) \<and> distinct (map snd al) \<and>
          list_all (\<lambda>a. a < length (heap m)) (map snd al))"

subsection \<open>Example data\<close>

text \<open>Two configurations, and the states that creating and deleting them leads to.\<close>

definition vm1_config :: VMConfig where
  "vm1_config = \<lparr>Name = ''vm1'', Memory = 512, VCPUs = 1, DiskPath = [], DiskSize = 0,
     ISOImage = [], Network = []\<rparr>"

definition db_config :: VMConfig where
  "db_config = \<lparr>Name = ''db-vm'', Memory = 2048, VCPUs = 4, DiskPath = ''/tmp/db.img'',
     DiskSize = 20, ISOImage = [], Network = ''default''\<rparr>"

definition fresh_manager :: mstate where
  "fresh_manager = NewMockVMManager []"

definition one_vm :: mstate where
  "one_vm = \<lparr>heap = [\<lparr>Config = vm1_config, State = VMStateRunning\<rparr>],
     vms = Some [(''vm1'', 0)], next_id = 1\<rparr>"

definition two_vms :: mstate where
  "two_vms = \<lparr>heap = [\<lparr>Config = vm1_config, State = VMStateRunning\<rparr>,
                       \<lparr>Config = db_config, State = VMStateRunning\<rparr>],
     vms = Some [(''vm1'', 0), (''db-vm'', 1)], next_id = 1\<rparr>"

definition one_vm_deleted :: mstate where
  "one_vm_deleted = \<lparr>heap = [\<lparr>Config = vm1_config, State = VMStateStopped\<rparr>],
     vms = Some [], next_id = 1\<rparr>"

text \<open>
  The zero value of the exported struct, as \<^verbatim>\<open>var m MockVMManager\<close> declares it
  without the constructor: the map is nil and \<^verbatim>\<open>next\<close> is 0.
\<close>

definition zero_value_manager :: mstate where
  "zero_value_manager = \<lparr>heap = [], vms = None, next_id = 0\<rparr>"

section \<open>Reachable states are well formed\<close>

lemma update_fresh: "map_of al k = None \<Longrightarrow> AList.update k v al = al @ [(k, v)]"
  by (induction al) (auto split: if_splits)

lemma wellformed_lookup_bound:
  "wellformed m \<Longrightarrow> lookup m name = Some a \<Longrightarrow> a < length (heap m)"
  by (auto simp: wellformed_def lookup_def list_all_iff split: option.splits
      dest!: map_of_SomeD)

lemma wellformed_deref:
  "wellformed m \<Longrightarrow> lookup m name = Some a \<Longrightarrow> deref m a = Some (heap m ! a)"
  by (simp add: deref_def wellformed_lookup_bound)

lemma wellformed_set_State: "wellformed m \<Longrightarrow> wellformed (set_State m a s)"
  by (simp add: wellformed_def set_State_def split: option.splits)

lemma wellformed_New: "wellformed (NewMockVMManager h)"
  by (simp add: wellformed_def NewMockVMManager_def)

lemma wellformed_CreateVM:
  "wellformed m \<Longrightarrow> CreateVM m config = Return r m' \<Longrightarrow> wellformed m'"
  by (auto simp: CreateVM_def wellformed_def Let_def set_State_def lookup_def
      update_fresh list_all_iff map_of_eq_None_iff split: if_splits option.splits)
    force+

lemma wellformed_StartVM:
  "wellformed m \<Longrightarrow> StartVM m name = Return r m' \<Longrightarrow> wellformed m'"
  by (auto simp: StartVM_def wellformed_set_State split: option.splits if_splits)

lemma wellformed_StopVM:
  "wellformed m \<Longrightarrow> StopVM m name = Return r m' \<Longrightarrow> wellformed m'"
  by (auto simp: StopVM_def wellformed_set_State split: option.splits if_splits)

lemma wellformed_delete:
  "wellformed m \<Longrightarrow> wellformed (m\<lparr>vms := map_option (AList.delete name) (vms m)\<rparr>)"
  by (auto simp: wellformed_def AList.delete_eq list_all_iff distinct_map_filter
      split: option.splits)

lemma wellformed_DeleteVM:
  "wellformed m \<Longrightarrow> DeleteVM m name = Return r m' \<Longrightarrow> wellformed m'"
  by (auto simp: DeleteVM_def Let_def wellformed_set_State wellformed_delete
      split: option.splits if_splits)

lemma state_after_Some: "state_after x = Some m' \<longleftrightarrow> (\<exists>r. x = Return r m')"
  by (cases x) auto

lemma wellformed_perform: "wellformed m \<Longrightarrow> perform m c = Some m' \<Longrightarrow> wellformed m'"
  by (cases c)
    (auto simp: state_after_Some ListVMs_def GetVMInfo_def GetVMState_def Close_def
      split: option.splits
      dest: wellformed_CreateVM wellformed_StartVM wellformed_StopVM wellformed_DeleteVM)

lemma reachable_wellformed: "reachable m \<Longrightarrow> wellformed m"
  by (induction rule: reachable.induct) (auto simp: wellformed_New dest: wellformed_perform)

section \<open>Facts about the primitive steps\<close>

lemma lookup_set_State [simp]: "lookup (set_State m a s) n = lookup m n"
  by (simp add: lookup_def set_State_def)

lemma vms_set_State [simp]: "vms (set_State m a s) = vms m"
  by (simp add: set_State_def)

lemma deref_set_State:
  "deref (set_State m a s) b =
     (if b < length (heap m)
      then Some (if b = a then (heap m ! a)\<lparr>State := s\<rparr> else heap m ! b) else None)"
  by (simp add: deref_def set_State_def)

lemma set_State_same:
  "a < length (heap m) \<Longrightarrow> State (heap m ! a) = s \<Longrightarrow> set_State m a s = m"
  by (simp add: set_State_def list_update_same_conv)

lemma wellformed_lookup_inj:
  "wellformed m \<Longrightarrow> lookup m n1 = Some a \<Longrightarrow> lookup m n2 = Some a \<Longrightarrow> n1 = n2"
  by (fastforce simp: wellformed_def lookup_def distinct_map inj_on_def
      split: option.splits dest!: map_of_SomeD)

section \<open>What each method does in a well-formed state\<close>

lemma CreateVM_success:
  assumes "vms m = Some al" "lookup m (Name config) = None" "Name config \<noteq> []"
    "Memory config \<noteq> 0" "VCPUs config \<noteq> 0"
  shows "CreateVM m config =
     Return None (m\<lparr>heap := heap m @ [\<lparr>Config = config, State = VMStateRunning\<rparr>],
                    vms := Some (al @ [(Name config, length (heap m))])\<rparr>)"
  using assms by (simp add: CreateVM_def Let_def set_State_def lookup_def update_fresh)

lemma CreateVM_returns_None:
  assumes "CreateVM m config = Return None m'"
  shows "\<exists>al. vms m = Some al \<and> lookup m (Name config) = None \<and> Name config \<noteq> [] \<and>
     Memory config \<noteq> 0 \<and> VCPUs config \<noteq> 0"
  using assms by (auto simp: CreateVM_def Let_def split: if_splits option.splits)

lemma lookup_CreateVM:
  assumes "CreateVM m config = Return None m'"
  shows "lookup m' n = (if n = Name config then Some (length (heap m)) else lookup m n)"
proof -
  from CreateVM_returns_None [OF assms] obtain al where al: "vms m = Some al"
    and rest: "lookup m (Name config) = None" "Name config \<noteq> []"
      "Memory config \<noteq> 0" "VCPUs config \<noteq> 0" by blast
  from CreateVM_success [OF al rest] assms
  have "m' = m\<lparr>heap := heap m @ [\<lparr>Config = config, State = VMStateRunning\<rparr>],
                    vms := Some (al @ [(Name config, length (heap m))])\<rparr>" by simp
  then show ?thesis using al rest(1)
    by (auto simp: lookup_def map_add_def split: option.splits)
qed

lemma record_of_CreateVM:
  assumes "wellformed m" "CreateVM m config = Return None m'"
  shows "record_of m' n =
     (if n = Name config then Some \<lparr>Config = config, State = VMStateRunning\<rparr>
      else record_of m n)"
proof -
  from CreateVM_returns_None [OF assms(2)] obtain al where al: "vms m = Some al"
    and rest: "lookup m (Name config) = None" "Name config \<noteq> []"
      "Memory config \<noteq> 0" "VCPUs config \<noteq> 0" by blast
  from CreateVM_success [OF al rest] assms(2)
  have m': "m' = m\<lparr>heap := heap m @ [\<lparr>Config = config, State = VMStateRunning\<rparr>],
                    vms := Some (al @ [(Name config, length (heap m))])\<rparr>" by simp
  show ?thesis
  proof (cases "n = Name config")
    case True
    then show ?thesis
      using lookup_CreateVM [OF assms(2), of n] by (simp add: record_of_def deref_def m')
  next
    case False
    then have l: "lookup m' n = lookup m n" using lookup_CreateVM [OF assms(2), of n] by simp
    show ?thesis
    proof (cases "lookup m n")
      case None
      then show ?thesis using l False by (simp add: record_of_def)
    next
      case (Some a)
      then have "a < length (heap m)" using assms(1) by (rule wellformed_lookup_bound [rotated])
      then show ?thesis using l Some False
        by (simp add: record_of_def deref_def m' nth_append)
    qed
  qed
qed

lemma StartVM_present:
  assumes "wellformed m" "lookup m name = Some a"
  shows "StartVM m name = Return None (set_State m a VMStateRunning)"
  using assms wellformed_deref [OF assms] wellformed_lookup_bound [OF assms]
  by (simp add: StartVM_def set_State_same)

lemma StopVM_present:
  assumes "wellformed m" "lookup m name = Some a"
  shows "StopVM m name = Return None (set_State m a VMStateStopped)"
  using assms wellformed_deref [OF assms] wellformed_lookup_bound [OF assms]
  by (simp add: StopVM_def set_State_same)

lemma record_of_set_State:
  assumes "wellformed m" "lookup m name = Some a"
  shows "record_of (set_State m a s) n =
     (if n = name then map_option (\<lambda>r. r\<lparr>State := s\<rparr>) (record_of m n) else record_of m n)"
proof (cases "lookup m n")
  case None
  then show ?thesis using assms(2) by (auto simp: record_of_def)
next
  case (Some b)
  have b: "b < length (heap m)" using assms(1) Some by (rule wellformed_lookup_bound)
  have "b = a \<longleftrightarrow> n = name"
    using wellformed_lookup_inj [OF assms(1) Some, of name] assms(2) Some by auto
  then show ?thesis using Some b assms(2)
    by (simp add: record_of_def deref_set_State) (auto simp: deref_def)
qed

lemma DeleteVM_present:
  assumes "wellformed m" "lookup m name = Some a"
  shows "DeleteVM m name =
     Return None
       ((if State (heap m ! a) = VMStateRunning then set_State m a VMStateStopped else m)
          \<lparr>vms := map_option (AList.delete name) (vms m)\<rparr>)"
  using assms wellformed_deref [OF assms]
  by (simp add: DeleteVM_def Let_def)

lemma lookup_delete:
  "lookup (m\<lparr>vms := map_option (AList.delete name) (vms m)\<rparr>) n =
     (if n = name then None else lookup m n)"
  by (simp add: lookup_def delete_conv split: option.splits)

lemma deref_vms_update [simp]: "deref (m\<lparr>vms := v\<rparr>) a = deref m a"
  by (simp add: deref_def)

lemma record_of_DeleteVM:
  assumes "wellformed m" "lookup m name = Some a" "DeleteVM m name = Return r m'"
  shows "record_of m' n = (if n = name then None else record_of m n)"
proof -
  let ?m1 = "if State (heap m ! a) = VMStateRunning then set_State m a VMStateStopped else m"
  have m': "m' = ?m1\<lparr>vms := map_option (AList.delete name) (vms ?m1)\<rparr>"
    using DeleteVM_present [OF assms(1,2)] assms(3) by (simp split: if_splits)
  have l: "lookup m' n = (if n = name then None else lookup ?m1 n)"
    unfolding m' by (rule lookup_delete)
  show ?thesis
  proof (cases "n = name")
    case True
    then show ?thesis using l by (simp add: record_of_def)
  next
    case False
    then have "record_of m' n = record_of ?m1 n"
      using l unfolding m' by (simp add: record_of_def split: if_splits option.splits)
    also have "\<dots> = record_of m n"
      using record_of_set_State [OF assms(1,2), of VMStateStopped n] False by simp
    finally show ?thesis using False by simp
  qed
qed

section \<open>A call that fails changes nothing\<close>

lemma CreateVM_error_unchanged: "CreateVM m config = Return (Some e) m' \<Longrightarrow> m' = m"
  by (auto simp: CreateVM_def Let_def split: if_splits option.splits)

lemma StartVM_error_unchanged: "StartVM m name = Return (Some e) m' \<Longrightarrow> m' = m"
  by (auto simp: StartVM_def split: if_splits option.splits)

lemma StopVM_error_unchanged: "StopVM m name = Return (Some e) m' \<Longrightarrow> m' = m"
  by (auto simp: StopVM_def split: if_splits option.splits)

lemma DeleteVM_error_unchanged: "DeleteVM m name = Return (Some e) m' \<Longrightarrow> m' = m"
  by (auto simp: DeleteVM_def Let_def split: if_splits option.splits)

lemma GetVMInfo_unchanged: "GetVMInfo m name = Return r m' \<Longrightarrow> m' = m"
  by (auto simp: GetVMInfo_def split: option.splits)

lemma GetVMState_unchanged: "GetVMState m name = Return r m' \<Longrightarrow> m' = m"
  by (auto simp: GetVMState_def split: option.splits)

section \<open>The example states\<close>

lemma CreateVM_fresh_manager: "CreateVM fresh_manager vm1_config = Return None one_vm"
  by (simp add: CreateVM_def fresh_manager_def NewMockVMManager_def vm1_config_def one_vm_def
      lookup_def set_State_def Let_def)

lemma CreateVM_one_vm: "CreateVM one_vm db_config = Return None two_vms"
  by (simp add: CreateVM_def db_config_def vm1_config_def one_vm_def two_vms_def
      lookup_def set_State_def Let_def)

lemma reachable_fresh_manager: "reachable fresh_manager"
  unfolding fresh_manager_def by (rule reachable.init)

lemma reachable_one_vm: "reachable one_vm"
  by (rule reachable.step [OF reachable_fresh_manager, of "CallCreateVM vm1_config"])
    (simp add: CreateVM_fresh_manager)

lemma reachable_two_vms: "reachable two_vms"
  by (rule reachable.step [OF reachable_one_vm, of "CallCreateVM db_config"])
    (simp add: CreateVM_one_vm)

lemma DeleteVM_one_vm: "DeleteVM one_vm ''vm1'' = Return None one_vm_deleted"
  by (simp add: DeleteVM_def one_vm_def one_vm_deleted_def lookup_def deref_def set_State_def)

lemma reachable_one_vm_deleted: "reachable one_vm_deleted"
  by (rule reachable.step [OF reachable_one_vm, of "CallDeleteVM ''vm1''"])
    (simp add: DeleteVM_one_vm)

lemma record_of_two_vms:
  "record_of two_vms ''vm1'' = Some \<lparr>Config = vm1_config, State = VMStateRunning\<rparr>"
  "record_of two_vms ''db-vm'' = Some \<lparr>Config = db_config, State = VMStateRunning\<rparr>"
  by (simp_all add: record_of_def two_vms_def lookup_def deref_def)

section \<open>One call, seen from one name\<close>

lemma GetVMState_record:
  "record_of m name = Some r \<Longrightarrow> GetVMState m name = Return (State r, None) m"
  by (auto simp: record_of_def GetVMState_def split: option.splits)

lemma record_of_after:
  assumes "wellformed m" and "perform m c = Some m'"
  shows "record_of m' n = record_of m n \<or>
     record_of m' n = map_option (\<lambda>r. r\<lparr>State := VMStateRunning\<rparr>) (record_of m n) \<or>
     record_of m' n = map_option (\<lambda>r. r\<lparr>State := VMStateStopped\<rparr>) (record_of m n) \<or>
     (record_of m n = None \<and>
        (\<exists>config. record_of m' n = Some \<lparr>Config = config, State = VMStateRunning\<rparr>)) \<or>
     record_of m' n = None"
proof (cases c)
  case (CallCreateVM config)
  then obtain e where c: "CreateVM m config = Return e m'"
    using assms(2) by (auto simp: state_after_Some)
  show ?thesis
  proof (cases e)
    case None
    then have new: "record_of m (Name config) = None"
      using CreateVM_returns_None c by (fastforce simp: record_of_def)
    have "record_of m' n =
        (if n = Name config then Some \<lparr>Config = config, State = VMStateRunning\<rparr>
         else record_of m n)"
      using assms(1) c None by (simp add: record_of_CreateVM)
    then show ?thesis using new by (cases "n = Name config") simp_all
  next
    case (Some err)
    then have "m' = m" using CreateVM_error_unchanged c by blast
    then show ?thesis by simp
  qed
next
  case (CallStartVM name)
  then obtain e where c: "StartVM m name = Return e m'"
    using assms(2) by (auto simp: state_after_Some)
  show ?thesis
  proof (cases "lookup m name")
    case None
    then show ?thesis using c by (simp add: StartVM_def)
  next
    case (Some a)
    then have "m' = set_State m a VMStateRunning"
      using StartVM_present [OF assms(1) Some] c by simp
    then show ?thesis
      using record_of_set_State [OF assms(1) Some, of VMStateRunning n]
      by (cases "n = name") simp_all
  qed
next
  case (CallStopVM name)
  then obtain e where c: "StopVM m name = Return e m'"
    using assms(2) by (auto simp: state_after_Some)
  show ?thesis
  proof (cases "lookup m name")
    case None
    then show ?thesis using c by (simp add: StopVM_def)
  next
    case (Some a)
    then have "m' = set_State m a VMStateStopped"
      using StopVM_present [OF assms(1) Some] c by simp
    then show ?thesis
      using record_of_set_State [OF assms(1) Some, of VMStateStopped n]
      by (cases "n = name") simp_all
  qed
next
  case (CallDeleteVM name)
  then obtain e where c: "DeleteVM m name = Return e m'"
    using assms(2) by (auto simp: state_after_Some)
  show ?thesis
  proof (cases "lookup m name")
    case None
    then show ?thesis using c by (simp add: DeleteVM_def)
  next
    case (Some a)
    then show ?thesis
      using record_of_DeleteVM [OF assms(1) Some c, of n]
      by (cases "n = name") simp_all
  qed
next
  case CallListVMs
  then show ?thesis using assms(2) by (simp add: ListVMs_def)
next
  case (CallGetVMInfo name)
  then have "m' = m"
    using assms(2) GetVMInfo_unchanged by (fastforce simp: state_after_Some)
  then show ?thesis by simp
next
  case (CallGetVMState name)
  then have "m' = m"
    using assms(2) GetVMState_unchanged by (fastforce simp: state_after_Some)
  then show ?thesis by simp
next
  case CallClose
  then show ?thesis using assms(2) by (simp add: Close_def)
qed

lemma record_of_perform:
  assumes "wellformed m" and "perform m c = Some m'" and "record_of m' n = Some r'"
  shows "(record_of m n = None \<and> State r' = VMStateRunning) \<or>
     (\<exists>r. record_of m n = Some r \<and> Config r' = Config r \<and>
        (State r' = State r \<or> State r' = VMStateRunning \<or> State r' = VMStateStopped))"
  using record_of_after [OF assms(1,2), of n] assms(3)
  by (cases "record_of m n") auto

lemma reachable_states:
  "reachable m \<Longrightarrow> record_of m n = Some r \<Longrightarrow>
     State r = VMStateRunning \<or> State r = VMStateStopped"
proof (induction arbitrary: n r rule: reachable.induct)
  case (init h)
  then show ?case by (simp add: record_of_def lookup_def NewMockVMManager_def)
next
  case (step m c m')
  from record_of_perform [OF reachable_wellformed [OF step.hyps(1)] step.hyps(2) step.prems]
  consider "State r = VMStateRunning"
    | r0 where "record_of m n = Some r0"
        "State r = State r0 \<or> State r = VMStateRunning \<or> State r = VMStateStopped"
    by blast
  then show ?case
  proof cases
    case 1
    then show ?thesis by simp
  next
    case 2
    then show ?thesis using step.IH [OF 2(1)] by auto
  qed
qed

section \<open>Where the methods panic\<close>

text \<open>
  Outside the reachable states the methods can panic: \<^verbatim>\<open>CreateVM\<close> writes to the
  nil map of a zero-value \<^verbatim>\<open>MockVMManager\<close>, and the methods that read
  \<^verbatim>\<open>vm.State\<close> dereference whatever pointer the map holds. Neither state is
  reachable from the constructor.
\<close>

lemma zero_value_manager_unreachable: "\<not> reachable zero_value_manager"
proof
  assume "reachable zero_value_manager"
  then have "wellformed zero_value_manager" by (rule reachable_wellformed)
  then show False by (simp add: wellformed_def zero_value_manager_def)
qed

lemma zero_value_manager_reads:
  "ListVMs zero_value_manager = Return ([], None) zero_value_manager"
  "GetVMState zero_value_manager name =
     Return ([], Some (ErrNotFound name)) zero_value_manager"
  by (simp_all add: ListVMs_def GetVMState_def lookup_def zero_value_manager_def)

lemma nil_pointer_panics:
  "StartVM \<lparr>heap = [], vms = Some [(''vm1'', 0)], next_id = 1\<rparr> ''vm1'' = Panic"
  by (simp add: StartVM_def lookup_def deref_def)

section \<open>Creating the same name again\<close>

lemma CreateVM_again:
  assumes "CreateVM m config = Return None m'"
  shows "CreateVM m' config = Return (Some (ErrAlreadyExists (Name config))) m'"
  using lookup_CreateVM [OF assms, of "Name config"] by (simp add: CreateVM_def)

section \<open>The claims\<close>

subsection \<open>Create, then inspect\<close>

text \<open>
  Claim C1. In a state of the manager, a configuration whose name is non-empty and not
  in the registry, with memory above zero and vcpus above zero, is created without an
  error; the registry then holds a record with that configuration under the name, and
  \<^verbatim>\<open>GetVMState\<close> of the name, called next, returns \<^verbatim>\<open>running\<close> and no error.
\<close>

theorem create_then_inspect:
  assumes "reachable m" and "Name config \<noteq> []" and "lookup m (Name config) = None"
    and "0 < Memory config" and "0 < VCPUs config"
  shows "\<exists>m'. CreateVM m config = Return None m' \<and>
     record_of m' (Name config) = Some \<lparr>Config = config, State = VMStateRunning\<rparr> \<and>
     GetVMState m' (Name config) = Return (VMStateRunning, None) m'"
proof -
  have wf: "wellformed m" using assms(1) by (rule reachable_wellformed)
  then obtain al where al: "vms m = Some al"
    by (auto simp: wellformed_def split: option.splits)
  have nz: "Memory config \<noteq> 0" "VCPUs config \<noteq> 0" using assms(4,5) by auto
  from CreateVM_success [OF al assms(3,2) nz]
  obtain m' where c: "CreateVM m config = Return None m'" by blast
  have r: "record_of m' (Name config) = Some \<lparr>Config = config, State = VMStateRunning\<rparr>"
    using record_of_CreateVM [OF wf c, of "Name config"] by simp
  from c r GetVMState_record [OF r] show ?thesis by simp
qed

theorem create_then_inspect_witness:
  "reachable one_vm \<and> Name db_config \<noteq> [] \<and> lookup one_vm (Name db_config) = None \<and>
   0 < Memory db_config \<and> 0 < VCPUs db_config \<and>
   CreateVM one_vm db_config = Return None two_vms \<and>
   GetVMState two_vms ''db-vm'' = Return (VMStateRunning, None) two_vms"
proof -
  have h: "Name db_config \<noteq> []" "lookup one_vm (Name db_config) = None"
    "0 < Memory db_config" "0 < VCPUs db_config"
    by (simp_all add: db_config_def one_vm_def lookup_def)
  from create_then_inspect [OF reachable_one_vm h] h reachable_one_vm
  show ?thesis by (simp add: CreateVM_one_vm) (simp add: db_config_def)
qed

subsection \<open>Failures change nothing\<close>

text \<open>
  Claim C2. A call that returns an error leaves the whole state as it was, and so every
  record and the size of the registry: this holds for \<^verbatim>\<open>CreateVM\<close> whatever the
  error, in particular for a name that is already present, and for \<^verbatim>\<open>StartVM\<close>,
  \<^verbatim>\<open>StopVM\<close>, \<^verbatim>\<open>DeleteVM\<close>, \<^verbatim>\<open>GetVMInfo\<close> and \<^verbatim>\<open>GetVMState\<close>, which
  return the not-found error for a name that is absent.
\<close>

theorem failure_leaves_state:
  "(CreateVM m config = Return (Some e) m' \<longrightarrow> m' = m) \<and>
   (lookup m (Name config) \<noteq> None \<longrightarrow>
      CreateVM m config = Return (Some (ErrAlreadyExists (Name config))) m) \<and>
   (StartVM m name = Return (Some e) m' \<longrightarrow> m' = m) \<and>
   (StopVM m name = Return (Some e) m' \<longrightarrow> m' = m) \<and>
   (DeleteVM m name = Return (Some e) m' \<longrightarrow> m' = m) \<and>
   (GetVMInfo m name = Return (p, Some e) m' \<longrightarrow> m' = m) \<and>
   (GetVMState m name = Return (s, Some e) m' \<longrightarrow> m' = m) \<and>
   (lookup m name = None \<longrightarrow>
      StartVM m name = Return (Some (ErrNotFound name)) m \<and>
      StopVM m name = Return (Some (ErrNotFound name)) m \<and>
      DeleteVM m name = Return (Some (ErrNotFound name)) m \<and>
      GetVMInfo m name = Return (None, Some (ErrNotFound name)) m \<and>
      GetVMState m name = Return ([], Some (ErrNotFound name)) m \<and>
      kind_of (ErrNotFound name) = NotFound)"
proof -
  have "lookup m (Name config) \<noteq> None \<Longrightarrow>
      CreateVM m config = Return (Some (ErrAlreadyExists (Name config))) m"
    by (simp add: CreateVM_def)
  moreover have "lookup m name = None \<Longrightarrow>
      StartVM m name = Return (Some (ErrNotFound name)) m \<and>
      StopVM m name = Return (Some (ErrNotFound name)) m \<and>
      DeleteVM m name = Return (Some (ErrNotFound name)) m \<and>
      GetVMInfo m name = Return (None, Some (ErrNotFound name)) m \<and>
      GetVMState m name = Return ([], Some (ErrNotFound name)) m"
    by (simp add: StartVM_def StopVM_def DeleteVM_def GetVMInfo_def GetVMState_def)
  ultimately show ?thesis
    using CreateVM_error_unchanged StartVM_error_unchanged StopVM_error_unchanged
      DeleteVM_error_unchanged GetVMInfo_unchanged GetVMState_unchanged
    by (intro conjI impI) (blast | simp)+
qed

theorem failure_leaves_state_witness:
  "CreateVM one_vm (db_config\<lparr>VCPUs := 0\<rparr>) = Return (Some ErrVCPUsZero) one_vm \<and>
   lookup one_vm ''vm1'' \<noteq> None \<and>
   CreateVM one_vm (vm1_config\<lparr>Memory := 4096\<rparr>) =
     Return (Some (ErrAlreadyExists ''vm1'')) one_vm \<and>
   record_of one_vm ''vm1'' = Some \<lparr>Config = vm1_config, State = VMStateRunning\<rparr> \<and>
   lookup one_vm ''ghost'' = None \<and>
   StartVM one_vm ''ghost'' = Return (Some (ErrNotFound ''ghost'')) one_vm \<and>
   StopVM one_vm ''ghost'' = Return (Some (ErrNotFound ''ghost'')) one_vm \<and>
   DeleteVM one_vm ''ghost'' = Return (Some (ErrNotFound ''ghost'')) one_vm \<and>
   GetVMInfo one_vm ''ghost'' = Return (None, Some (ErrNotFound ''ghost'')) one_vm \<and>
   GetVMState one_vm ''ghost'' = Return ([], Some (ErrNotFound ''ghost'')) one_vm"
proof -
  have c: "CreateVM one_vm (db_config\<lparr>VCPUs := 0\<rparr>) = Return (Some ErrVCPUsZero) one_vm"
    by (simp add: CreateVM_def one_vm_def db_config_def lookup_def)
  have l: "lookup one_vm ''vm1'' \<noteq> None" "lookup one_vm ''ghost'' = None"
    by (simp_all add: one_vm_def lookup_def)
  have r: "record_of one_vm ''vm1'' = Some \<lparr>Config = vm1_config, State = VMStateRunning\<rparr>"
    by (simp add: record_of_def one_vm_def lookup_def deref_def)
  have n: "Name (vm1_config\<lparr>Memory := 4096\<rparr>) = ''vm1''"
    by (simp add: vm1_config_def)
  show ?thesis
    using failure_leaves_state [of one_vm "db_config\<lparr>VCPUs := 0\<rparr>" ErrVCPUsZero one_vm]
      failure_leaves_state [of one_vm "vm1_config\<lparr>Memory := 4096\<rparr>" _ _ "''ghost''"]
      c l r n
    by simp
qed

subsection \<open>Starting and stopping twice\<close>

text \<open>
  Claim C3. For a name in the registry, \<^verbatim>\<open>StartVM\<close> succeeds and leaves the state
  \<^verbatim>\<open>running\<close>, and a second \<^verbatim>\<open>StartVM\<close> succeeds again and changes nothing;
  likewise \<^verbatim>\<open>StopVM\<close> with \<^verbatim>\<open>stopped\<close>. A call on a resource that is already
  in the target state succeeds and changes nothing.
\<close>

theorem start_stop_idempotent:
  assumes "reachable m" and "lookup m name = Some a"
  shows "(\<exists>m1. StartVM m name = Return None m1 \<and>
            GetVMState m1 name = Return (VMStateRunning, None) m1 \<and>
            StartVM m1 name = Return None m1) \<and>
         (\<exists>m1. StopVM m name = Return None m1 \<and>
            GetVMState m1 name = Return (VMStateStopped, None) m1 \<and>
            StopVM m1 name = Return None m1) \<and>
         (GetVMState m name = Return (VMStateRunning, None) m \<longrightarrow>
            StartVM m name = Return None m) \<and>
         (GetVMState m name = Return (VMStateStopped, None) m \<longrightarrow>
            StopVM m name = Return None m)"
proof -
  have wf: "wellformed m" using assms(1) by (rule reachable_wellformed)
  have a: "a < length (heap m)" using wf assms(2) by (rule wellformed_lookup_bound)
  have d: "deref m a = Some (heap m ! a)" using wf assms(2) by (rule wellformed_deref)
  have twice: "set_State (set_State m a s) a s = set_State m a s" for s
    using a by (simp add: set_State_def)
  have after: "StartVM m name = Return None (set_State m a VMStateRunning) \<and>
      GetVMState (set_State m a s) name = Return (s, None) (set_State m a s) \<and>
      StartVM (set_State m a VMStateRunning) name = Return None (set_State m a VMStateRunning) \<and>
      StopVM m name = Return None (set_State m a VMStateStopped) \<and>
      StopVM (set_State m a VMStateStopped) name = Return None (set_State m a VMStateStopped)"
    for s
    using StartVM_present [OF wf assms(2)] StopVM_present [OF wf assms(2)]
      StartVM_present [OF wellformed_set_State [OF wf], of a VMStateRunning name a]
      StopVM_present [OF wellformed_set_State [OF wf], of a VMStateStopped name a]
      assms(2) a twice
    by (simp add: GetVMState_def deref_set_State)
  have noop: "GetVMState m name = Return (s, None) m \<Longrightarrow> set_State m a s = m" for s
    using assms(2) d a by (auto simp: GetVMState_def intro: set_State_same)
  have start: "\<exists>m1. StartVM m name = Return None m1 \<and>
      GetVMState m1 name = Return (VMStateRunning, None) m1 \<and>
      StartVM m1 name = Return None m1"
    using after [of VMStateRunning] by (intro exI [of _ "set_State m a VMStateRunning"]) simp
  have stop: "\<exists>m1. StopVM m name = Return None m1 \<and>
      GetVMState m1 name = Return (VMStateStopped, None) m1 \<and>
      StopVM m1 name = Return None m1"
    using after [of VMStateStopped] by (intro exI [of _ "set_State m a VMStateStopped"]) simp
  from start stop after [of VMStateRunning] noop show ?thesis by simp
qed

theorem start_stop_idempotent_witness:
  "reachable one_vm \<and> lookup one_vm ''vm1'' = Some 0 \<and>
   GetVMState one_vm ''vm1'' = Return (VMStateRunning, None) one_vm \<and>
   StartVM one_vm ''vm1'' = Return None one_vm \<and>
   (\<exists>m1. StopVM one_vm ''vm1'' = Return None m1 \<and>
      GetVMState m1 ''vm1'' = Return (VMStateStopped, None) m1 \<and>
      StopVM m1 ''vm1'' = Return None m1)"
proof -
  have h: "lookup one_vm ''vm1'' = Some 0"
    by (simp add: one_vm_def lookup_def)
  have g: "GetVMState one_vm ''vm1'' = Return (VMStateRunning, None) one_vm"
    by (simp add: GetVMState_def one_vm_def lookup_def deref_def)
  from start_stop_idempotent [OF reachable_one_vm h] g h reachable_one_vm
  show ?thesis by simp
qed

subsection \<open>The order of the checks of CreateVM\<close>

text \<open>
  Claim C4. \<^verbatim>\<open>CreateVM\<close> checks existence, then the empty name, then memory, then
  vcpus, and fails with the error of the first check that is violated: already-exists
  for a present name, otherwise invalid-argument for an empty name, otherwise for zero
  memory, otherwise for zero vcpus; otherwise it succeeds.
\<close>

theorem CreateVM_check_order:
  "(lookup m (Name config) \<noteq> None \<longrightarrow>
      CreateVM m config = Return (Some (ErrAlreadyExists (Name config))) m \<and>
      kind_of (ErrAlreadyExists (Name config)) = AlreadyExists) \<and>
   (lookup m (Name config) = None \<and> Name config = [] \<longrightarrow>
      CreateVM m config = Return (Some ErrNameEmpty) m \<and>
      kind_of ErrNameEmpty = InvalidArgument) \<and>
   (lookup m (Name config) = None \<and> Name config \<noteq> [] \<and> Memory config = 0 \<longrightarrow>
      CreateVM m config = Return (Some ErrMemoryZero) m \<and>
      kind_of ErrMemoryZero = InvalidArgument) \<and>
   (lookup m (Name config) = None \<and> Name config \<noteq> [] \<and> Memory config \<noteq> 0 \<and>
    VCPUs config = 0 \<longrightarrow>
      CreateVM m config = Return (Some ErrVCPUsZero) m \<and>
      kind_of ErrVCPUsZero = InvalidArgument) \<and>
   (reachable m \<and> lookup m (Name config) = None \<and> Name config \<noteq> [] \<and>
    Memory config \<noteq> 0 \<and> VCPUs config \<noteq> 0 \<longrightarrow>
      (\<exists>m'. CreateVM m config = Return None m'))"
proof -
  have succeeds: "\<exists>m'. CreateVM m config = Return None m'"
    if r: "reachable m" and ok: "lookup m (Name config) = None" "Name config \<noteq> []"
      "Memory config \<noteq> 0" "VCPUs config \<noteq> 0"
  proof -
    obtain al where al: "vms m = Some al"
      using reachable_wellformed [OF r] by (auto simp: wellformed_def split: option.splits)
    from CreateVM_success [OF al ok] show ?thesis by blast
  qed
  have fails: "lookup m (Name config) \<noteq> None \<longrightarrow>
      CreateVM m config = Return (Some (ErrAlreadyExists (Name config))) m"
    "lookup m (Name config) = None \<and> Name config = [] \<longrightarrow>
      CreateVM m config = Return (Some ErrNameEmpty) m"
    "lookup m (Name config) = None \<and> Name config \<noteq> [] \<and> Memory config = 0 \<longrightarrow>
      CreateVM m config = Return (Some ErrMemoryZero) m"
    "lookup m (Name config) = None \<and> Name config \<noteq> [] \<and> Memory config \<noteq> 0 \<and>
     VCPUs config = 0 \<longrightarrow> CreateVM m config = Return (Some ErrVCPUsZero) m"
    by (auto simp: CreateVM_def)
  from fails succeeds show ?thesis by simp
qed

theorem CreateVM_check_order_witness:
  "lookup one_vm ''vm1'' \<noteq> None \<and>
   CreateVM one_vm (vm1_config\<lparr>Memory := 0, VCPUs := 0\<rparr>) =
     Return (Some (ErrAlreadyExists ''vm1'')) one_vm \<and>
   lookup one_vm [] = None \<and>
   CreateVM one_vm (db_config\<lparr>Name := [], Memory := 0, VCPUs := 0\<rparr>) =
     Return (Some ErrNameEmpty) one_vm \<and>
   lookup one_vm ''db-vm'' = None \<and>
   CreateVM one_vm (db_config\<lparr>Memory := 0, VCPUs := 0\<rparr>) =
     Return (Some ErrMemoryZero) one_vm \<and>
   CreateVM one_vm (db_config\<lparr>VCPUs := 0\<rparr>) = Return (Some ErrVCPUsZero) one_vm \<and>
   reachable one_vm \<and> Memory db_config \<noteq> 0 \<and> VCPUs db_config \<noteq> 0 \<and>
   (\<exists>m'. CreateVM one_vm db_config = Return None m')"
proof -
  have l: "lookup one_vm ''vm1'' \<noteq> None" "lookup one_vm [] = None"
    "lookup one_vm ''db-vm'' = None"
    by (simp_all add: one_vm_def lookup_def)
  have n: "Name vm1_config = ''vm1''" "Name db_config = ''db-vm''"
    "Memory db_config \<noteq> 0" "VCPUs db_config \<noteq> 0"
    by (simp_all add: vm1_config_def db_config_def)
  show ?thesis
    using CreateVM_check_order [of one_vm "vm1_config\<lparr>Memory := 0, VCPUs := 0\<rparr>"]
      CreateVM_check_order [of one_vm "db_config\<lparr>Name := [], Memory := 0, VCPUs := 0\<rparr>"]
      CreateVM_check_order [of one_vm "db_config\<lparr>Memory := 0, VCPUs := 0\<rparr>"]
      CreateVM_check_order [of one_vm "db_config\<lparr>VCPUs := 0\<rparr>"]
      CreateVM_check_order [of one_vm db_config]
      l n reachable_one_vm
    by simp
qed

subsection \<open>Deleting a resource\<close>

text \<open>
  Claim C5. For a name in the registry \<^verbatim>\<open>DeleteVM\<close> succeeds whatever the state of
  the resource. A resource that was running has its state set to \<^verbatim>\<open>stopped\<close>, so
  the object that leaves the registry is not flagged running; afterwards the name is not
  in the registry and not in the result of \<^verbatim>\<open>ListVMs\<close>.
\<close>

theorem delete_present:
  assumes "reachable m" and "lookup m name = Some a"
  shows "\<exists>m' names r.
     DeleteVM m name = Return None m' \<and>
     deref m a = Some r \<and>
     deref m' a = Some (if State r = VMStateRunning then r\<lparr>State := VMStateStopped\<rparr> else r) \<and>
     State (heap m' ! a) \<noteq> VMStateRunning \<and>
     lookup m' name = None \<and>
     ListVMs m' = Return (names, None) m' \<and> name \<notin> set names"
proof -
  have wf: "wellformed m" using assms(1) by (rule reachable_wellformed)
  have a: "a < length (heap m)" using wf assms(2) by (rule wellformed_lookup_bound)
  have d: "deref m a = Some (heap m ! a)" using wf assms(2) by (rule wellformed_deref)
  let ?r = "heap m ! a"
  let ?m1 = "if State ?r = VMStateRunning then set_State m a VMStateStopped else m"
  let ?m' = "?m1\<lparr>vms := map_option (AList.delete name) (vms m)\<rparr>"
  have del: "DeleteVM m name = Return None ?m'"
    using wf assms(2) by (rule DeleteVM_present)
  have obj: "deref ?m' a =
      Some (if State ?r = VMStateRunning then ?r\<lparr>State := VMStateStopped\<rparr> else ?r)"
    using a by (simp add: deref_set_State) (simp add: deref_def)
  have flag: "State (heap ?m' ! a) \<noteq> VMStateRunning"
    using a by (simp add: set_State_def VMStateStopped_def VMStateRunning_def)
  have gone: "lookup ?m' name = None"
    by (simp add: lookup_def delete_conv split: option.splits)
  obtain names where l: "ListVMs ?m' = Return (names, None) ?m'"
    by (simp add: ListVMs_def)
  have "name \<notin> set names"
    using l by (auto simp: ListVMs_def delete_notin_dom split: option.splits if_splits)
  with del d obj flag gone l show ?thesis by blast
qed

theorem delete_present_witness:
  "reachable one_vm \<and> lookup one_vm ''vm1'' = Some 0 \<and>
   DeleteVM one_vm ''vm1'' = Return None one_vm_deleted \<and>
   deref one_vm 0 = Some \<lparr>Config = vm1_config, State = VMStateRunning\<rparr> \<and>
   deref one_vm_deleted 0 = Some \<lparr>Config = vm1_config, State = VMStateStopped\<rparr> \<and>
   lookup one_vm_deleted ''vm1'' = None \<and>
   ListVMs one_vm_deleted = Return ([], None) one_vm_deleted"
proof -
  have h: "lookup one_vm ''vm1'' = Some 0"
    by (simp add: one_vm_def lookup_def)
  from delete_present [OF reachable_one_vm h] obtain names r where
    "deref one_vm 0 = Some r"
    "deref one_vm_deleted 0 =
       Some (if State r = VMStateRunning then r\<lparr>State := VMStateStopped\<rparr> else r)"
    "lookup one_vm_deleted ''vm1'' = None"
    "ListVMs one_vm_deleted = Return (names, None) one_vm_deleted"
    by (auto simp: DeleteVM_one_vm)
  then show ?thesis using h reachable_one_vm DeleteVM_one_vm
    by (auto simp: deref_def one_vm_def ListVMs_def one_vm_deleted_def)
qed

subsection \<open>The states of stored records\<close>

text \<open>
  Claim C6. In every state reached from a new manager by calls of its eight methods,
  the record of each name in the registry has one of the three defined states, and
  never \<^verbatim>\<open>paused\<close>.
\<close>

theorem states_defined:
  assumes "reachable m" and "lookup m name = Some a"
  shows "\<exists>r. deref m a = Some r \<and> record_of m name = Some r \<and>
     State r \<in> {VMStateStopped, VMStateRunning, VMStatePaused} \<and>
     State r \<noteq> VMStatePaused"
proof -
  have d: "deref m a = Some (heap m ! a)"
    using reachable_wellformed [OF assms(1)] assms(2) by (rule wellformed_deref)
  then have r: "record_of m name = Some (heap m ! a)"
    using assms(2) by (simp add: record_of_def)
  from reachable_states [OF assms(1) r] d r show ?thesis
    by (auto simp: VMStateStopped_def VMStateRunning_def VMStatePaused_def)
qed

theorem states_defined_witness:
  "reachable one_vm_deleted \<and> reachable two_vms \<and> lookup two_vms ''db-vm'' = Some 1 \<and>
   deref two_vms 1 = Some \<lparr>Config = db_config, State = VMStateRunning\<rparr> \<and>
   VMStateRunning \<in> {VMStateStopped, VMStateRunning, VMStatePaused} \<and>
   VMStateRunning \<noteq> VMStatePaused"
proof -
  have h: "lookup two_vms ''db-vm'' = Some 1"
    by (simp add: two_vms_def lookup_def)
  have d: "deref two_vms 1 = Some \<lparr>Config = db_config, State = VMStateRunning\<rparr>"
    by (simp add: two_vms_def deref_def)
  have "reachable one_vm_deleted"
    by (rule reachable.step [OF reachable_one_vm, of "CallDeleteVM ''vm1''"])
      (simp add: DeleteVM_one_vm)
  with states_defined [OF reachable_two_vms h] h d reachable_two_vms
  show ?thesis by simp
qed
subsection \<open>What start, stop and delete leave alone\<close>

text \<open>
  Claim C7. For a name in the registry, \<^verbatim>\<open>StartVM\<close> and \<^verbatim>\<open>StopVM\<close> change only
  the state field of that name's record: its configuration, the registry map and the
  record of every other name stay as they were. \<^verbatim>\<open>DeleteVM\<close> of the name leaves the
  entry and the record of every other name as they were. No single call of any method
  changes the configuration of a record that stays in the registry.
\<close>

theorem start_stop_delete_frame:
  assumes "reachable m" and "lookup m name = Some a"
  shows "(\<exists>m' r. StartVM m name = Return None m' \<and> vms m' = vms m \<and>
            record_of m name = Some r \<and>
            record_of m' name = Some (r\<lparr>State := VMStateRunning\<rparr>) \<and>
            Config (r\<lparr>State := VMStateRunning\<rparr>) = Config r \<and>
            (\<forall>other. other \<noteq> name \<longrightarrow> record_of m' other = record_of m other)) \<and>
         (\<exists>m' r. StopVM m name = Return None m' \<and> vms m' = vms m \<and>
            record_of m name = Some r \<and>
            record_of m' name = Some (r\<lparr>State := VMStateStopped\<rparr>) \<and>
            Config (r\<lparr>State := VMStateStopped\<rparr>) = Config r \<and>
            (\<forall>other. other \<noteq> name \<longrightarrow> record_of m' other = record_of m other)) \<and>
         (\<exists>m'. DeleteVM m name = Return None m' \<and>
            (\<forall>other. other \<noteq> name \<longrightarrow>
               lookup m' other = lookup m other \<and> record_of m' other = record_of m other)) \<and>
         (\<forall>c m' r r'. perform m c = Some m' \<and> record_of m name = Some r \<and>
            record_of m' name = Some r' \<longrightarrow> Config r' = Config r)"
proof -
  have wf: "wellformed m" using assms(1) by (rule reachable_wellformed)
  have r: "record_of m name = Some (heap m ! a)"
    using wellformed_deref [OF wf assms(2)] assms(2) by (simp add: record_of_def)
  have set: "record_of m name = Some (heap m ! a) \<and>
      record_of (set_State m a s) name = Some ((heap m ! a)\<lparr>State := s\<rparr>) \<and>
      Config ((heap m ! a)\<lparr>State := s\<rparr>) = Config (heap m ! a) \<and>
      vms (set_State m a s) = vms m \<and>
      (\<forall>other. other \<noteq> name \<longrightarrow> record_of (set_State m a s) other = record_of m other)"
    for s
    using record_of_set_State [OF wf assms(2), of s] r by simp
  have start: "\<exists>m' r. StartVM m name = Return None m' \<and> vms m' = vms m \<and>
            record_of m name = Some r \<and>
            record_of m' name = Some (r\<lparr>State := VMStateRunning\<rparr>) \<and>
            Config (r\<lparr>State := VMStateRunning\<rparr>) = Config r \<and>
            (\<forall>other. other \<noteq> name \<longrightarrow> record_of m' other = record_of m other)"
    using StartVM_present [OF wf assms(2)] set [of VMStateRunning] by blast
  have stop: "\<exists>m' r. StopVM m name = Return None m' \<and> vms m' = vms m \<and>
            record_of m name = Some r \<and>
            record_of m' name = Some (r\<lparr>State := VMStateStopped\<rparr>) \<and>
            Config (r\<lparr>State := VMStateStopped\<rparr>) = Config r \<and>
            (\<forall>other. other \<noteq> name \<longrightarrow> record_of m' other = record_of m other)"
    using StopVM_present [OF wf assms(2)] set [of VMStateStopped] by blast
  obtain m' where d: "DeleteVM m name = Return None m'"
    using DeleteVM_present [OF wf assms(2)] by blast
  have "lookup m' other = lookup m other" if "other \<noteq> name" for other
    using d that DeleteVM_present [OF wf assms(2)]
    by (auto simp: lookup_def delete_conv split: option.splits if_splits)
  then have del: "\<exists>m'. DeleteVM m name = Return None m' \<and>
            (\<forall>other. other \<noteq> name \<longrightarrow>
               lookup m' other = lookup m other \<and> record_of m' other = record_of m other)"
    using d record_of_DeleteVM [OF wf assms(2) d] by auto
  have any: "Config r' = Config r0"
    if "perform m c = Some m1" "record_of m name = Some r0" "record_of m1 name = Some r'"
    for c m1 r0 r'
    using record_of_perform [OF wf that(1,3)] that(2) by auto
  then have every: "\<forall>c m' r r'. perform m c = Some m' \<and> record_of m name = Some r \<and>
            record_of m' name = Some r' \<longrightarrow> Config r' = Config r"
    by blast
  show ?thesis
    by (intro conjI) (fact start, fact stop, fact del, fact every)
qed

theorem start_stop_delete_frame_witness:
  "reachable two_vms \<and> lookup two_vms ''vm1'' = Some 0 \<and>
   (\<exists>m'. StopVM two_vms ''vm1'' = Return None m' \<and>
      record_of m' ''vm1'' = Some \<lparr>Config = vm1_config, State = VMStateStopped\<rparr> \<and>
      record_of m' ''db-vm'' = Some \<lparr>Config = db_config, State = VMStateRunning\<rparr>) \<and>
   (\<exists>m'. DeleteVM two_vms ''vm1'' = Return None m' \<and>
      record_of m' ''db-vm'' = Some \<lparr>Config = db_config, State = VMStateRunning\<rparr>)"
proof -
  have h: "lookup two_vms ''vm1'' = Some 0"
    by (simp add: two_vms_def lookup_def)
  have other: "''db-vm'' \<noteq> ''vm1''" by simp
  note frame = start_stop_delete_frame [OF reachable_two_vms h]
  from frame [THEN conjunct2, THEN conjunct1] obtain m1 r where
    stop: "StopVM two_vms ''vm1'' = Return None m1"
    "record_of two_vms ''vm1'' = Some r"
    "record_of m1 ''vm1'' = Some (r\<lparr>State := VMStateStopped\<rparr>)"
    "\<forall>other. other \<noteq> ''vm1'' \<longrightarrow> record_of m1 other = record_of two_vms other"
    by blast
  from frame [THEN conjunct2, THEN conjunct2, THEN conjunct1] obtain m2 where
    del: "DeleteVM two_vms ''vm1'' = Return None m2"
    "\<forall>other. other \<noteq> ''vm1'' \<longrightarrow> record_of m2 other = record_of two_vms other"
    by blast
  have "record_of m1 ''vm1'' = Some \<lparr>Config = vm1_config, State = VMStateStopped\<rparr>"
    using stop(2,3) record_of_two_vms(1) by auto
  moreover have "record_of m1 ''db-vm'' = Some \<lparr>Config = db_config, State = VMStateRunning\<rparr>"
    using stop(4) other record_of_two_vms(2) by simp
  moreover have "record_of m2 ''db-vm'' = Some \<lparr>Config = db_config, State = VMStateRunning\<rparr>"
    using del(2) other record_of_two_vms(2) by simp
  ultimately show ?thesis using stop(1) del(1) h reachable_two_vms by blast
qed

subsection \<open>Panic freedom\<close>




subsection \<open>Inspecting a name that is absent\<close>

text \<open>
  Claim C10. For a name that is not in the registry, \<^verbatim>\<open>GetVMState\<close> returns the
  empty string together with the not-found error, and the empty string is none of the
  three state constants; \<^verbatim>\<open>GetVMInfo\<close> returns the nil pointer together with the
  not-found error. Both leave the state as it was.
\<close>

theorem inspect_absent:
  "lookup m name = None \<Longrightarrow>
     GetVMState m name = Return ([], Some (ErrNotFound name)) m \<and>
     [] \<notin> {VMStateStopped, VMStateRunning, VMStatePaused} \<and>
     GetVMInfo m name = Return (None, Some (ErrNotFound name)) m \<and>
     kind_of (ErrNotFound name) = NotFound"
  by (simp add: GetVMState_def GetVMInfo_def VMStateStopped_def VMStateRunning_def
      VMStatePaused_def)

theorem inspect_absent_witness:
  "lookup (NewMockVMManager []) ''ghost'' = None \<and>
   GetVMState (NewMockVMManager []) ''ghost'' =
     Return ([], Some (ErrNotFound ''ghost'')) (NewMockVMManager []) \<and>
   GetVMInfo (NewMockVMManager []) ''ghost'' =
     Return (None, Some (ErrNotFound ''ghost'')) (NewMockVMManager [])"
proof -
  have absent: "lookup (NewMockVMManager []) ''ghost'' = None"
    by (simp add: lookup_def NewMockVMManager_def)
  from absent inspect_absent [OF absent] show ?thesis by simp
qed

end
